theory Spec2Isabelle
  imports Complex_Main "HOL-Library.Word" "HOL-Library.Multiset"
begin

section \<open>Doubling speed tracker: the metric store and the doubling-rate estimator\<close>

text \<open>
  The development embeds the logic of \<^verbatim>\<open>src/App.tsx\<close>: the three store operations
  \<^verbatim>\<open>addMetric\<close>, \<^verbatim>\<open>addValueEntry\<close> and \<^verbatim>\<open>deleteMetric\<close>, and the estimator
  \<^verbatim>\<open>calculateDoublingRate\<close>. React state is passed explicitly; the built-ins of the
  JavaScript host that the code calls are either defined here from their ECMAScript
  description or taken as parameters.
\<close>

subsection \<open>Strings\<close>

text \<open>
  A JavaScript string is a sequence of 16-bit code units. String literals of the source
  are ASCII and are written through \<open>str\<close>.
\<close>

type_synonym jsstring = "16 word list"

definition str :: "string \<Rightarrow> jsstring" where
  "str s = map (\<lambda>c. of_nat (of_char c)) s"

text \<open>
  \<^verbatim>\<open>String.prototype.trim\<close> removes leading and trailing white space and line
  terminators: TAB, LF, VT, FF, CR, SPACE, NBSP, OGHAM SPACE MARK, U+2000 to U+200A,
  LS, PS, NNBSP, MMSP, IDEOGRAPHIC SPACE and the byte order mark.
\<close>

definition isWhiteSpace :: "16 word \<Rightarrow> bool" where
  "isWhiteSpace c \<longleftrightarrow>
     (0x9 \<le> c \<and> c \<le> 0xD) \<or> c = 0x20 \<or> c = 0xA0 \<or> c = 0x1680 \<or>
     (0x2000 \<le> c \<and> c \<le> 0x200A) \<or> c = 0x2028 \<or> c = 0x2029 \<or> c = 0x202F \<or>
     c = 0x205F \<or> c = 0x3000 \<or> c = 0xFEFF"

definition trim :: "jsstring \<Rightarrow> jsstring" where
  "trim s = rev (dropWhile isWhiteSpace (rev (dropWhile isWhiteSpace s)))"

subsection \<open>Numbers\<close>

text \<open>
  A JavaScript number is an IEEE 754 double. A finite value is the real number it
  denotes; \<open>Num 0\<close> is the positive zero and \<open>NegZero\<close> the negative one. The special
  values are kept, because the code reaches them: a division by zero gives an infinity
  or NaN, a date that does not parse has the time value NaN, and every comparison with
  NaN is false. Each arithmetic operation rounds its exact result to the nearest double
  (\<open>fl\<close> below), as the hardware does.
\<close>

datatype number = Num real | NegZero | PosInf | NegInf | NaN

fun signbit :: "number \<Rightarrow> bool" where
  "signbit (Num r) = (r < 0)"
| "signbit NegZero = True"
| "signbit PosInf = False"
| "signbit NegInf = True"
| "signbit NaN = False"

fun is_zero :: "number \<Rightarrow> bool" where
  "is_zero (Num r) = (r = 0)"
| "is_zero NegZero = True"
| "is_zero _ = False"

fun is_inf :: "number \<Rightarrow> bool" where
  "is_inf PosInf = True"
| "is_inf NegInf = True"
| "is_inf _ = False"

fun rv :: "number \<Rightarrow> real" where
  "rv (Num r) = r"
| "rv _ = 0"

definition zero :: "bool \<Rightarrow> number" where
  "zero s = (if s then NegZero else Num 0)"

definition infty :: "bool \<Rightarrow> number" where
  "infty s = (if s then NegInf else PosInf)"

text \<open>
  Rounding to nearest, ties to even. A double has 53 significant bits and a binary
  exponent of at least \<open>-1022\<close>; \<open>ulp x\<close> is the distance of the doubles around \<open>x\<close>
  (\<open>2^-1074\<close> in the subnormal range), and \<open>nearest x\<close> is the multiple of \<open>ulp x\<close>
  nearest to \<open>x\<close>, the even multiple of two equally near ones.
\<close>

definition round_even :: "real \<Rightarrow> int" where
  "round_even q =
     (let f = \<lfloor>q\<rfloor> in
      if q - of_int f < 1 / 2 then f
      else if 1 / 2 < q - of_int f then f + 1
      else if even f then f else f + 1)"

definition expo :: "real \<Rightarrow> int" where
  "expo x = (if x = 0 then - 1022 else max \<lfloor>log 2 \<bar>x\<bar>\<rfloor> (- 1022))"

definition ulp :: "real \<Rightarrow> real" where
  "ulp x = 2 powi (expo x - 52)"

definition nearest :: "real \<Rightarrow> real" where
  "nearest x = of_int (round_even (x / ulp x)) * ulp x"

text \<open>
  The double that an operation with the exact result \<open>x\<close> returns: an infinity when the
  rounded magnitude reaches \<open>2^1024\<close>, a zero when it vanishes (of the sign of \<open>x\<close>, or
  of the sign \<open>s\<close> that the operation gives an exact zero), and \<open>nearest x\<close> otherwise.
\<close>

definition fl :: "bool \<Rightarrow> real \<Rightarrow> number" where
  "fl s x =
     (let y = nearest x in
      if 2 ^ 1024 \<le> \<bar>y\<bar> then infty (x < 0)
      else if y = 0 then zero (if x = 0 then s else x < 0)
      else Num y)"

definition isFinite :: "number \<Rightarrow> bool" where
  "isFinite x \<longleftrightarrow> x \<noteq> NaN \<and> \<not> is_inf x"

text \<open>The relational operators \<^verbatim>\<open><\<close> and \<^verbatim>\<open><=\<close>: false when an operand is NaN.\<close>

fun jlt :: "number \<Rightarrow> number \<Rightarrow> bool" where
  "jlt NaN _ = False"
| "jlt _ NaN = False"
| "jlt PosInf _ = False"
| "jlt _ PosInf = True"
| "jlt _ NegInf = False"
| "jlt NegInf _ = True"
| "jlt a b = (rv a < rv b)"

fun jle :: "number \<Rightarrow> number \<Rightarrow> bool" where
  "jle NaN _ = False"
| "jle _ NaN = False"
| "jle NegInf _ = True"
| "jle _ NegInf = False"
| "jle _ PosInf = True"
| "jle PosInf _ = False"
| "jle a b = (rv a \<le> rv b)"

text \<open>The arithmetic operators \<^verbatim>\<open>/\<close>, \<^verbatim>\<open>*\<close>, \<^verbatim>\<open>+\<close>, \<^verbatim>\<open>-\<close> of IEEE 754.\<close>

definition jdiv :: "number \<Rightarrow> number \<Rightarrow> number" where
  "jdiv a b =
     (if a = NaN \<or> b = NaN then NaN
      else let s = (signbit a \<noteq> signbit b) in
        if is_inf a then (if is_inf b then NaN else infty s)
        else if is_inf b then zero s
        else if is_zero b then (if is_zero a then NaN else infty s)
        else fl s (rv a / rv b))"

definition jmul :: "number \<Rightarrow> number \<Rightarrow> number" where
  "jmul a b =
     (if a = NaN \<or> b = NaN then NaN
      else let s = (signbit a \<noteq> signbit b) in
        if is_inf a \<or> is_inf b then (if is_zero a \<or> is_zero b then NaN else infty s)
        else fl s (rv a * rv b))"

definition jadd :: "number \<Rightarrow> number \<Rightarrow> number" where
  "jadd a b =
     (if a = NaN \<or> b = NaN then NaN
      else if is_inf a then (if is_inf b \<and> signbit a \<noteq> signbit b then NaN else a)
      else if is_inf b then b
      else if is_zero a \<and> is_zero b then zero (signbit a \<and> signbit b)
      else fl False (rv a + rv b))"

fun jneg :: "number \<Rightarrow> number" where
  "jneg (Num r) = (if r = 0 then NegZero else Num (- r))"
| "jneg NegZero = Num 0"
| "jneg PosInf = NegInf"
| "jneg NegInf = PosInf"
| "jneg NaN = NaN"

definition jsub :: "number \<Rightarrow> number \<Rightarrow> number" where
  "jsub a b = jadd a (jneg b)"

text \<open>
  \<^verbatim>\<open>Math.log2\<close>: NaN below zero, minus infinity at either zero, infinity at infinity,
  and the logarithm to base 2 elsewhere. ECMAScript leaves the accuracy of the result to
  the engine; the model takes the correctly rounded logarithm, which is exact at the
  powers of two.
\<close>

fun log2 :: "number \<Rightarrow> number" where
  "log2 (Num r) = (if r < 0 then NaN else if r = 0 then NegInf else fl False (log 2 r))"
| "log2 NegZero = NegInf"
| "log2 PosInf = PosInf"
| "log2 NegInf = NaN"
| "log2 NaN = NaN"

subsection \<open>The host: dates and number formatting\<close>

text \<open>
  What the engine and its locale decide is a parameter of the model:
  \<^item> \<open>parseDate s\<close> is the time value of \<^verbatim>\<open>new Date(s)\<close>, in milliseconds since the epoch,
    and \<open>None\<close> when the string does not parse (an invalid date);
  \<^item> \<open>formatDate t\<close> is the text \<^verbatim>\<open>toLocaleDateString()\<close> gives for the valid time value \<open>t\<close>,
    which depends on locale and time zone;
  \<^item> \<open>numberToString r\<close> is the text of \<^verbatim>\<open>Number::toString\<close> for a finite \<open>r\<close>, which
    \<^verbatim>\<open>toFixed\<close> uses from \<open>10^21\<close> on;
  \<^item> \<open>parseFloat\<close> is the global function of that name.
\<close>

record host =
  parseDate :: "jsstring \<Rightarrow> int option"
  formatDate :: "int \<Rightarrow> jsstring"
  numberToString :: "real \<Rightarrow> jsstring"
  parseFloat :: "jsstring \<Rightarrow> number"

text \<open>A \<^verbatim>\<open>Date\<close> object is its time value: an integral number of milliseconds, or invalid.\<close>

type_synonym jsdate = "int option"

definition newDate :: "host \<Rightarrow> jsstring \<Rightarrow> jsdate" where
  "newDate h s = parseDate h s"

definition getTime :: "jsdate \<Rightarrow> number" where
  "getTime d = (case d of None \<Rightarrow> NaN | Some t \<Rightarrow> Num (real_of_int t))"

text \<open>
  \<^verbatim>\<open>new Date(number)\<close> applies TimeClip: a time value that is not finite or lies beyond
  \<open>8.64 * 10^15\<close> milliseconds is invalid, any other is truncated towards zero.
\<close>

definition timeClip :: "real \<Rightarrow> jsdate" where
  "timeClip r =
     (if 8640000000000000 < \<bar>r\<bar> then None
      else Some (if 0 \<le> r then \<lfloor>r\<rfloor> else \<lceil>r\<rceil>))"

definition newDateNum :: "number \<Rightarrow> jsdate" where
  "newDateNum x = (if x = NaN \<or> is_inf x then None else timeClip (rv x))"

definition toLocaleDateString :: "host \<Rightarrow> jsdate \<Rightarrow> jsstring" where
  "toLocaleDateString h d = (case d of None \<Rightarrow> str ''Invalid Date'' | Some t \<Rightarrow> formatDate h t)"

text \<open>The decimal digits of a natural number, most significant first.\<close>

fun digits :: "nat \<Rightarrow> jsstring" where
  "digits n = (if n < 10 then [of_nat (48 + n)]
               else digits (n div 10) @ [of_nat (48 + n mod 10)])"

declare digits.simps [simp del]

text \<open>
  \<^verbatim>\<open>Number.prototype.toFixed(f)\<close>. For a finite \<open>x\<close> of magnitude below \<open>10^21\<close> the result
  is the decimal text of \<open>n / 10^f\<close>, where \<open>n\<close> is the integer nearest to \<open>\<bar>x\<bar> * 10^f\<close>
  (the larger one of two), with at least one digit before the point and a minus sign
  when \<open>x < 0\<close>.
\<close>

definition toFixedAbs :: "host \<Rightarrow> real \<Rightarrow> nat \<Rightarrow> jsstring" where
  "toFixedAbs h x f =
     (if 10 ^ 21 \<le> x then numberToString h x
      else let n = nat \<lfloor>x * 10 ^ f + 1 / 2\<rfloor>;
               m = digits n;
               m = (if f \<noteq> 0 \<and> length m \<le> f then replicate (f + 1 - length m) 48 @ m else m);
               k = length m
           in if f \<noteq> 0 then take (k - f) m @ str ''.'' @ drop (k - f) m else m)"

definition toFixed :: "host \<Rightarrow> number \<Rightarrow> nat \<Rightarrow> jsstring" where
  "toFixed h x f =
     (case x of
        NaN \<Rightarrow> str ''NaN''
      | PosInf \<Rightarrow> str ''Infinity''
      | NegInf \<Rightarrow> str ''-Infinity''
      | NegZero \<Rightarrow> toFixedAbs h 0 f
      | Num r \<Rightarrow> if r < 0 then str ''-'' @ toFixedAbs h (- r) f else toFixedAbs h r f)"

subsection \<open>Data model\<close>

record MetricValue =
  date :: jsstring
  entry_value :: number

text \<open>
  Metric ids are integers, held in doubles: \<^verbatim>\<open>addMetric\<close> assigns them by adding 1, and
  the selection comes from \<^verbatim>\<open>parseInt\<close>. The addition is the one of doubles, which is exact
  up to \<open>2^53\<close> and rounds beyond.
\<close>

record Metric =
  metric_id :: int
  name :: jsstring
  metric_values :: "MetricValue list"
  baseValue :: number
  lastUpdated :: "jsstring option"

record DoublingRate =
  daysPerDoubling :: jsstring
  monthsPerDoubling :: jsstring
  projectedNextDouble :: jsstring

text \<open>The estimator returns \<^verbatim>\<open>string | DoublingRate\<close>.\<close>

datatype estimate = Status jsstring | Rate DoublingRate

text \<open>
  The errors that the specification names. The source has no \<^verbatim>\<open>throw\<close>: each of its
  functions completes normally on every path, so each model below returns \<open>Inr\<close>.
\<close>

datatype error = InvalidInput | NotFound

subsection \<open>The estimator\<close>

definition calculateDoublingRate :: "host \<Rightarrow> MetricValue list \<Rightarrow> error + estimate" where
  "calculateDoublingRate h vs =
     (if length vs < 2 then Inr (Status (str ''Need more data''))
      else
        let firstEntry = vs ! 0;
            lastEntry = vs ! (length vs - 1);
            totalGrowth = jdiv (entry_value lastEntry) (entry_value firstEntry)
        in if jlt totalGrowth (Num 2) then Inr (Status (str ''Not doubled yet''))
           else
             let timeInDays =
                   jdiv (jsub (getTime (newDate h (date lastEntry)))
                              (getTime (newDate h (date firstEntry))))
                        (Num (1000 * 60 * 60 * 24));
                 doublings = log2 totalGrowth;
                 daysPerDoubling = jdiv timeInDays doublings
             in Inr (Rate \<lparr>
                  daysPerDoubling = toFixed h daysPerDoubling 1,
                  monthsPerDoubling = toFixed h (jdiv daysPerDoubling (Num 30)) 1,
                  projectedNextDouble =
                    toLocaleDateString h
                      (newDateNum
                        (jadd (getTime (newDate h (date lastEntry)))
                              (jmul (jmul (jmul (jmul daysPerDoubling (Num 1000)) (Num 60))
                                          (Num 60)) (Num 24))))\<rparr>))"

subsection \<open>The store\<close>

text \<open>
  The state of the component: the metric list and the form fields that the two mutators
  read. \<open>selectedMetric\<close> is \<open>None\<close> for \<^verbatim>\<open>null\<close>, and for the NaN that \<^verbatim>\<open>parseInt\<close> gives
  on the empty option: the only reader, the guard of \<^verbatim>\<open>addValueEntry\<close>, takes both alike.
\<close>

record app =
  metrics :: "Metric list"
  newMetricName :: jsstring
  newBaseValue :: number
  selectedMetric :: "int option"
  newValue :: jsstring

definition initial :: app where
  "initial =
     \<lparr>metrics =
        [\<lparr>metric_id = 1, name = str ''Followers'', metric_values = [], baseValue = Num 100,
          lastUpdated = None\<rparr>,
         \<lparr>metric_id = 2, name = str ''Revenue'', metric_values = [], baseValue = Num 1000,
          lastUpdated = None\<rparr>,
         \<lparr>metric_id = 3, name = str ''Customers'', metric_values = [], baseValue = Num 10,
          lastUpdated = None\<rparr>],
      newMetricName = [], newBaseValue = Num 100, selectedMetric = None, newValue = []\<rparr>"

text \<open>\<^verbatim>\<open>Math.max(0, ...ids)\<close> on integers.\<close>

definition Math_max0 :: "int list \<Rightarrow> int" where
  "Math_max0 xs = fold max xs 0"

text \<open>
  \<^verbatim>\<open>n + 1\<close> on an integer held in a double. The sum of a double and 1 never overflows,
  and the nearest double to an integer is an integer.
\<close>

definition plus1 :: "int \<Rightarrow> int" where
  "plus1 n = \<lfloor>rv (jadd (Num (real_of_int n)) (Num 1))\<rfloor>"

definition addMetric :: "app \<Rightarrow> error + app" where
  "addMetric st =
     (if trim (newMetricName st) = [] then Inr st
      else Inr (st\<lparr>
        metrics := metrics st @
          [\<lparr>metric_id = plus1 (Math_max0 (map metric_id (metrics st))),
            name = newMetricName st,
            metric_values = [],
            baseValue = newBaseValue st,
            lastUpdated = None\<rparr>],
        newMetricName := [],
        newBaseValue := Num 100\<rparr>))"

text \<open>
  \<^verbatim>\<open>Array.prototype.sort(comparefn)\<close>. ECMAScript requires the sort to be stable and, for
  a consistent comparator, to order the elements by it; a comparator result of NaN
  counts as zero. Insertion from the right is such a sort: an element moves behind
  another one only when the comparator is positive on the pair.
\<close>

fun insert_cmp :: "('a \<Rightarrow> 'a \<Rightarrow> number) \<Rightarrow> 'a \<Rightarrow> 'a list \<Rightarrow> 'a list" where
  "insert_cmp cmp x [] = [x]"
| "insert_cmp cmp x (y # ys) =
     (if jlt (Num 0) (cmp x y) then y # insert_cmp cmp x ys else x # y # ys)"

definition array_sort :: "('a \<Rightarrow> 'a \<Rightarrow> number) \<Rightarrow> 'a list \<Rightarrow> 'a list" where
  "array_sort cmp xs = foldr (insert_cmp cmp) xs []"

text \<open>The comparator of \<^verbatim>\<open>addValueEntry\<close>: the difference of the two time values.\<close>

definition byDate :: "host \<Rightarrow> MetricValue \<Rightarrow> MetricValue \<Rightarrow> number" where
  "byDate h a b = jsub (getTime (newDate h (date a))) (getTime (newDate h (date b)))"

text \<open>
  \<^verbatim>\<open>new Date().toISOString().split("T")[0]\<close> is the calendar day of the clock in UTC.
  The source evaluates it twice in one call: \<open>day1\<close> is the reading for the date of the
  new sample, \<open>day2\<close> the later reading for \<^verbatim>\<open>lastUpdated\<close>.
\<close>

definition addValueEntry :: "host \<Rightarrow> jsstring \<Rightarrow> jsstring \<Rightarrow> app \<Rightarrow> error + app" where
  "addValueEntry h day1 day2 st =
     (if selectedMetric st = None \<or> selectedMetric st = Some 0 \<or> newValue st = [] then Inr st
      else
        let updatedMetrics =
              map (\<lambda>metric.
                     if Some (metric_id metric) = selectedMetric st then
                       let newValues =
                             array_sort (byDate h)
                               (metric_values metric @
                                  [\<lparr>date = day1, entry_value = parseFloat h (newValue st)\<rparr>])
                       in metric\<lparr>metric_values := newValues, lastUpdated := Some day2\<rparr>
                     else metric)
                  (metrics st)
        in Inr (st\<lparr>metrics := updatedMetrics, newValue := []\<rparr>))"

definition deleteMetric :: "int \<Rightarrow> app \<Rightarrow> error + app" where
  "deleteMetric i st = Inr (st\<lparr>metrics := filter (\<lambda>metric. metric_id metric \<noteq> i) (metrics st)\<rparr>)"

subsection \<open>Properties of the data\<close>

text \<open>The time value that a sample's date parses to.\<close>

definition timeOf :: "host \<Rightarrow> MetricValue \<Rightarrow> number" where
  "timeOf h v = getTime (newDate h (date v))"

definition millis :: "host \<Rightarrow> MetricValue \<Rightarrow> int" where
  \<comment> \<open>the same in milliseconds, for a date that parses\<close>
  "millis h v = (case parseDate h (date v) of Some t \<Rightarrow> t | None \<Rightarrow> 0)"

definition validDate :: "host \<Rightarrow> jsstring \<Rightarrow> bool" where
  "validDate h s \<longleftrightarrow> parseDate h s \<noteq> None"

definition sortedByDate :: "host \<Rightarrow> MetricValue list \<Rightarrow> bool" where
  "sortedByDate h vs \<longleftrightarrow> sorted_wrt (\<lambda>a b. jle (timeOf h a) (timeOf h b)) vs"

definition consistent :: "Metric \<Rightarrow> bool" where
  \<comment> \<open>\<^verbatim>\<open>lastUpdated\<close> is absent exactly when there are no samples\<close>
  "consistent m \<longleftrightarrow> (lastUpdated m = None \<longleftrightarrow> metric_values m = [])"

subsection \<open>Reachable states\<close>

text \<open>
  The states of the component: the initial state, followed by any edits of the form fields
  and any calls of the three operations, the clock giving a day that parses. In all of
  them every metric has \<^verbatim>\<open>lastUpdated\<close> exactly when it has samples, and has samples with
  valid dates in ascending order.
\<close>

definition store_inv :: "host \<Rightarrow> app \<Rightarrow> bool" where
  "store_inv h st \<longleftrightarrow>
     (\<forall>m\<in>set (metrics st).
        consistent m \<and>
        (\<forall>v\<in>set (metric_values m). validDate h (date v)) \<and>
        sortedByDate h (metric_values m))"

inductive reachable :: "host \<Rightarrow> app \<Rightarrow> bool" for h :: host where
  start: "reachable h initial"
| edit: "reachable h st \<Longrightarrow>
         reachable h (st\<lparr>newMetricName := n, newBaseValue := b, selectedMetric := s, newValue := v\<rparr>)"
| add: "reachable h st \<Longrightarrow> addMetric st = Inr st' \<Longrightarrow> reachable h st'"
| entry: "reachable h st \<Longrightarrow> validDate h day1 \<Longrightarrow> addValueEntry h day1 day2 st = Inr st' \<Longrightarrow>
          reachable h st'"
| delete: "reachable h st \<Longrightarrow> deleteMetric i st = Inr st' \<Longrightarrow> reachable h st'"

subsection \<open>A host and data for the examples\<close>

definition example_host :: host where
  "example_host =
     \<lparr>parseDate = (\<lambda>s. if s = str ''2024-01-01'' then Some 1704067200000
                        else if s = str ''2024-02-01'' then Some 1706745600000
                        else if s = str ''2024-01-10'' then Some 1704844800000
                        else None),
      formatDate = (\<lambda>t. if t = 1706745600000 then str ''2/1/2024''
                         else if t = 1709424000000 then str ''3/3/2024''
                         else if t = 1705233600000 then str ''1/14/2024''
                         else []),
      numberToString = (\<lambda>r. []),
      parseFloat = (\<lambda>s. if s = str ''7'' then Num 7 else NaN)\<rparr>"

definition sample :: "string \<Rightarrow> real \<Rightarrow> MetricValue" where
  "sample d x = \<lparr>date = str d, entry_value = Num x\<rparr>"

definition example_store :: "int \<Rightarrow> int option \<Rightarrow> string \<Rightarrow> app" where
  \<comment> \<open>one metric \<open>i\<close> with a sample of February 1st; a selection and a typed value\<close>
  "example_store i sel v =
     \<lparr>metrics =
        [\<lparr>metric_id = i, name = str ''Followers'',
          metric_values = [sample ''2024-02-01'' 5], baseValue = Num 100,
          lastUpdated = Some (str ''2024-02-01'')\<rparr>,
         \<lparr>metric_id = i + 1, name = str ''Revenue'', metric_values = [], baseValue = Num 1000,
          lastUpdated = None\<rparr>],
      newMetricName = str ''Customers'', newBaseValue = Num 10,
      selectedMetric = sel, newValue = str v\<rparr>"

section \<open>Supporting lemmas\<close>

subsection \<open>Rounding to the nearest double\<close>

lemma round_even_int [simp]: "round_even (of_int n) = n"
  by (simp add: round_even_def)

lemma round_even_cases: "round_even q = \<lfloor>q\<rfloor> \<or> round_even q = \<lfloor>q\<rfloor> + 1"
  by (simp add: round_even_def Let_def)

lemma round_even_ge: "of_int n \<le> q \<Longrightarrow> n \<le> round_even q"
proof -
  assume "of_int n \<le> q"
  then have "n \<le> \<lfloor>q\<rfloor>" by (simp add: le_floor_iff)
  then show ?thesis using round_even_cases [of q] by linarith
qed

lemma round_even_le: "q \<le> of_int n \<Longrightarrow> round_even q \<le> n"
proof -
  assume a: "q \<le> of_int n"
  have f: "\<lfloor>q\<rfloor> \<le> n" using a by (simp add: floor_le_iff)
  show ?thesis
  proof (cases "\<lfloor>q\<rfloor> = n")
    case True
    then have "q = of_int n" using a by linarith
    then show ?thesis by simp
  next
    case False
    with f have "\<lfloor>q\<rfloor> + 1 \<le> n" by simp
    then show ?thesis by (auto simp: round_even_def Let_def)
  qed
qed

lemma round_even_error: "\<bar>of_int (round_even q) - q\<bar> \<le> 1 / 2"
  by (auto simp: round_even_def Let_def)

lemma ulp_pos: "0 < ulp x"
  by (simp add: ulp_def)

lemma expo_eq:
  assumes "2 powi k \<le> \<bar>x\<bar>" "\<bar>x\<bar> < 2 powi (k + 1)" "- 1022 \<le> k"
  shows "expo x = k"
proof -
  have pos: "0 < \<bar>x\<bar>" using assms(1) by (smt (verit) zero_less_power_int)
  have p: "(2::real) powr (of_int j) = 2 powi j" for j
    by (rule powr_real_of_int') simp_all
  have "2 powr (of_int k) \<le> \<bar>x\<bar>" "\<bar>x\<bar> < 2 powr (of_int k + 1)"
    using assms(1,2) p [of k] p [of "k + 1"] by simp_all
  then have "\<lfloor>log 2 \<bar>x\<bar>\<rfloor> = k"
    using pos by (simp add: floor_log_eq_powr_iff)
  then show ?thesis using assms(3) pos by (simp add: expo_def)
qed

lemma nearest_exact:
  assumes "x / ulp x = of_int n"
  shows "nearest x = x"
proof -
  have "nearest x = of_int n * ulp x"
    unfolding nearest_def assms by simp
  also have "\<dots> = x / ulp x * ulp x" by (simp only: assms)
  also have "\<dots> = x" using ulp_pos [of x] by simp
  finally show ?thesis .
qed

lemma nearest_0 [simp]: "nearest 0 = 0"
  by (simp add: nearest_def round_even_def)

lemma floor_log_bounds:
  assumes "x \<noteq> 0"
  shows "2 powi \<lfloor>log 2 \<bar>x\<bar>\<rfloor> \<le> \<bar>x\<bar>" "\<bar>x\<bar> < 2 powi (\<lfloor>log 2 \<bar>x\<bar>\<rfloor> + 1)"
proof -
  have p: "(2::real) powr (of_int j) = 2 powi j" for j
    by (rule powr_real_of_int') simp_all
  have pos: "0 < \<bar>x\<bar>" using assms by simp
  have "2 powr (of_int \<lfloor>log 2 \<bar>x\<bar>\<rfloor>) \<le> \<bar>x\<bar> \<and> \<bar>x\<bar> < 2 powr (of_int \<lfloor>log 2 \<bar>x\<bar>\<rfloor> + 1)"
    using floor_log_eq_powr_iff [of "\<bar>x\<bar>" 2 "\<lfloor>log 2 \<bar>x\<bar>\<rfloor>"] pos by simp
  then show "2 powi \<lfloor>log 2 \<bar>x\<bar>\<rfloor> \<le> \<bar>x\<bar>" "\<bar>x\<bar> < 2 powi (\<lfloor>log 2 \<bar>x\<bar>\<rfloor> + 1)"
    using p [of "\<lfloor>log 2 \<bar>x\<bar>\<rfloor>"] p [of "\<lfloor>log 2 \<bar>x\<bar>\<rfloor> + 1"] by simp_all
qed

lemma powi_mono2: "i \<le> j \<Longrightarrow> (2::real) powi i \<le> 2 powi j"
  by (rule power_int_increasing) simp_all

lemma powi_less_iff2: "(2::real) powi i < 2 powi j \<longleftrightarrow> i < j"
proof
  assume l: "(2::real) powi i < 2 powi j"
  show "i < j"
  proof (rule ccontr)
    assume "\<not> i < j"
    then have "(2::real) powi j \<le> 2 powi i" by (intro powi_mono2) simp
    with l show False by simp
  qed
next
  assume "i < j"
  then show "(2::real) powi i < 2 powi j" by (intro power_int_strict_increasing) simp_all
qed


lemma ulp_ratio:
  assumes "expo x \<le> k + 52"
  shows "2 powi k / ulp x = of_int (2 ^ nat (k + 52 - expo x))"
proof -
  have "2 powi k / ulp x = (2::real) powi (k - (expo x - 52))"
    by (simp add: ulp_def power_int_diff)
  also have "\<dots> = 2 powi (int (nat (k + 52 - expo x)))"
    using assms by (simp add: algebra_simps)
  also have "\<dots> = of_int (2 ^ nat (k + 52 - expo x))"
    by (simp only: power_int_of_nat) simp
  finally show ?thesis .
qed


lemma nearest_lower:
  assumes "2 powi k \<le> x" "- 1022 \<le> k"
  shows "2 powi k \<le> nearest x"
proof -
  have pos: "0 < x" using assms(1) by (smt (verit) zero_less_power_int)
  then have nz: "x \<noteq> 0" and ab: "\<bar>x\<bar> = x" by simp_all
  let ?e = "\<lfloor>log 2 \<bar>x\<bar>\<rfloor>"
  have b: "2 powi ?e \<le> x" "x < 2 powi (?e + 1)"
    using floor_log_bounds [OF nz] ab by simp_all
  have "(2::real) powi k < 2 powi (?e + 1)" using assms(1) b(2) by linarith
  then have ke: "k \<le> ?e" using powi_less_iff2 [of k "?e + 1"] by simp
  then have e: "expo x = ?e" using assms(2) nz by (simp add: expo_def)
  have r: "2 powi ?e / ulp x = of_int (2 ^ nat (?e + 52 - expo x))"
    by (intro ulp_ratio) (simp add: e)
  have u: "0 < ulp x" by (rule ulp_pos)
  have "of_int (2 ^ nat (?e + 52 - expo x)) \<le> x / ulp x"
    unfolding r [symmetric] using b(1) u by (simp add: divide_right_mono)
  then have "2 ^ nat (?e + 52 - expo x) \<le> round_even (x / ulp x)"
    by (rule round_even_ge)
  then have "of_int (2 ^ nat (?e + 52 - expo x)) * ulp x \<le> nearest x"
    using u unfolding nearest_def by (intro mult_right_mono) (simp_all del: of_int_power)
  moreover have "of_int (2 ^ nat (?e + 52 - expo x)) * ulp x = 2 powi ?e"
    using r u by (simp add: field_simps)
  ultimately have "2 powi ?e \<le> nearest x" by simp
  then show ?thesis using powi_mono2 [OF ke] by linarith
qed

lemma nearest_nonneg: "0 \<le> x \<Longrightarrow> 0 \<le> nearest x"
  using round_even_ge [of 0 "x / ulp x"] ulp_pos [of x] by (simp add: nearest_def)

lemma nearest_nonpos: "x \<le> 0 \<Longrightarrow> nearest x \<le> 0"
  using round_even_le [of "x / ulp x" 0] ulp_pos [of x]
  by (simp add: nearest_def mult_le_0_iff divide_le_0_iff)

lemma nearest_error: "\<bar>nearest x - x\<bar> \<le> ulp x / 2"
proof -
  have u: "0 < ulp x" by (rule ulp_pos)
  have "nearest x - x = (of_int (round_even (x / ulp x)) - x / ulp x) * ulp x"
    using u by (simp add: nearest_def field_simps)
  then have "\<bar>nearest x - x\<bar> = \<bar>of_int (round_even (x / ulp x)) - x / ulp x\<bar> * ulp x"
    using u by (simp add: abs_mult)
  also have "\<dots> \<le> 1 / 2 * ulp x"
    using round_even_error [of "x / ulp x"] u by (intro mult_right_mono) simp_all
  finally show ?thesis by simp
qed

lemma nearest_dyadic_less:
  assumes "\<bar>m\<bar> < 2 ^ 53" "- 1074 \<le> j"
  shows "nearest (of_int m * 2 powi j) = of_int m * 2 powi j"
proof (cases "m = 0")
  case True
  then show ?thesis by simp
next
  case False
  let ?x = "of_int m * 2 powi j :: real"
  have nz: "?x \<noteq> 0" using False by simp
  have "\<bar>?x\<bar> = of_int \<bar>m\<bar> * 2 powi j" by (simp add: abs_mult)
  also have "\<dots> \<le> 2 ^ 53 * 2 powi j"
    using assms(1) by (intro mult_right_mono) (simp_all flip: of_int_abs)
  also have "\<dots> = 2 powi (j + 53)"
    by (simp add: power_int_add)
  finally have "\<bar>?x\<bar> \<le> 2 powi (j + 53)" .
  moreover have "\<bar>?x\<bar> \<noteq> 2 powi (j + 53)"
  proof
    assume "\<bar>?x\<bar> = 2 powi (j + 53)"
    then have "of_int \<bar>m\<bar> * 2 powi j = (2 ^ 53 * 2 powi j :: real)"
      by (simp add: abs_mult power_int_add)
    then have "real_of_int \<bar>m\<bar> = real_of_int (2 ^ 53)" by simp
    then have "\<bar>m\<bar> = 2 ^ 53" by (simp only: of_int_eq_iff)
    with assms(1) show False by simp
  qed
  ultimately have lt: "\<bar>?x\<bar> < 2 powi (j + 53)" by simp
  have "(2::real) powi \<lfloor>log 2 \<bar>?x\<bar>\<rfloor> < 2 powi (j + 53)"
    using floor_log_bounds(1) [OF nz] lt by linarith
  then have "\<lfloor>log 2 \<bar>?x\<bar>\<rfloor> < j + 53" by (simp only: powi_less_iff2)
  then have e: "expo ?x \<le> j + 52" using assms(2) nz by (simp add: expo_def)
  have "?x / ulp ?x = of_int m * (2 powi j / ulp ?x)" by simp
  also have "\<dots> = of_int m * of_int (2 ^ nat (j + 52 - expo ?x))"
    by (simp only: ulp_ratio [OF e])
  also have "\<dots> = of_int (m * 2 ^ nat (j + 52 - expo ?x))" by simp
  finally show ?thesis by (rule nearest_exact)
qed

lemma nearest_dyadic:
  assumes "\<bar>m\<bar> \<le> 2 ^ 53" "- 1074 \<le> j"
  shows "nearest (of_int m * 2 powi j) = of_int m * 2 powi j"
proof (cases "\<bar>m\<bar> = 2 ^ 53")
  case False
  with assms show ?thesis by (intro nearest_dyadic_less) simp_all
next
  case True
  then have "m = 2 ^ 53 \<or> m = - (2 ^ 53)" by linarith
  then have "m = 2 * (m div 2)" "\<bar>m div 2\<bar> < 2 ^ 53" by auto
  then have "of_int m * 2 powi j = (of_int (m div 2) * 2 powi (j + 1) :: real)"
    by (simp add: power_int_add)
  moreover have "nearest (of_int (m div 2) * 2 powi (j + 1)) = of_int (m div 2) * 2 powi (j + 1)"
    using \<open>\<bar>m div 2\<bar> < 2 ^ 53\<close> assms(2) by (intro nearest_dyadic_less) simp_all
  ultimately show ?thesis by simp
qed

lemma nearest_int: "\<bar>n\<bar> \<le> 2 ^ 53 \<Longrightarrow> nearest (of_int n) = of_int n"
  using nearest_dyadic [of n 0] by simp

lemma nearest_numeral: "numeral k \<le> (2 ^ 53 :: int) \<Longrightarrow> nearest (numeral k) = numeral k"
  using nearest_int [of "numeral k"] by simp

lemma nearest_neg_numeral:
  "numeral k \<le> (2 ^ 53 :: int) \<Longrightarrow> nearest (- numeral k) = - numeral k"
  using nearest_int [of "- numeral k"] by simp

lemma nearest_1 [simp]: "nearest 1 = 1"
  using nearest_int [of 1] by simp

subsection \<open>The rounded operations\<close>

lemma zero_simps [simp]:
  "zero s \<noteq> NaN" "\<not> is_inf (zero s)" "rv (zero s) = 0" "is_zero (zero s)"
  "\<not> jlt (Num 0) (zero s)" "zero s \<noteq> PosInf" "zero s \<noteq> NegInf" "isFinite (zero s)"
  by (simp_all add: zero_def isFinite_def)

lemma fl_cases:
  "fl s x = PosInf \<and> 0 < x \<and> 2 ^ 1024 \<le> nearest x \<or>
   fl s x = NegInf \<and> x < 0 \<and> nearest x \<le> - (2 ^ 1024) \<or>
   fl s x = zero (if x = 0 then s else x < 0) \<and> nearest x = 0 \<or>
   fl s x = Num (nearest x) \<and> nearest x \<noteq> 0 \<and> \<bar>nearest x\<bar> < 2 ^ 1024"
proof -
  have "x < 0 \<Longrightarrow> nearest x \<le> 0" "0 \<le> x \<Longrightarrow> 0 \<le> nearest x"
    by (simp_all add: nearest_nonpos nearest_nonneg)
  moreover have "nearest x = 0" if "x = 0" using that by simp
  ultimately show ?thesis
    by (cases "x < 0"; cases "x = 0")
       (auto simp: fl_def Let_def infty_def abs_if not_less split: if_splits)
qed

lemma fl_not_NaN [simp]: "fl s x \<noteq> NaN"
  using fl_cases [of s x] by auto


lemma fl_Num:
  assumes "nearest x = y" "y \<noteq> 0" "\<bar>y\<bar> < 2 ^ 1024"
  shows "fl s x = Num y"
  using assms by (simp add: fl_def)

lemma fl_0 [simp]: "fl s 0 = zero s"
  by (simp add: fl_def)

lemma jlt_0_fl: "jlt (Num 0) (fl s x) \<longleftrightarrow> 0 < nearest x"
  using fl_cases [of s x] by auto



lemma jsub_Num: "jsub (Num x) (Num y) = fl False (x - y)"
  by (simp add: jsub_def jadd_def zero_def)

lemma jadd_Num: "jadd (Num x) (Num y) = fl False (x + y)"
  by (simp add: jadd_def zero_def)

lemma jdiv_finite:
  assumes "isFinite a" "isFinite b" "\<not> is_zero b"
  shows "jdiv a b = fl (signbit a \<noteq> signbit b) (rv a / rv b)"
  using assms by (simp add: jdiv_def isFinite_def)

lemma jmul_finite:
  assumes "isFinite a" "isFinite b"
  shows "jmul a b = fl (signbit a \<noteq> signbit b) (rv a * rv b)"
  using assms by (simp add: jmul_def isFinite_def)

lemma isFinite_Num [simp]: "isFinite (Num r)"
  by (simp add: isFinite_def)



lemma nearest_of_int_pos: "0 < nearest (real_of_int n) \<longleftrightarrow> 0 < n"
proof
  assume "0 < n"
  then have "2 powi 0 \<le> nearest (real_of_int n)"
    by (intro nearest_lower) simp_all
  then show "0 < nearest (real_of_int n)" by simp
next
  assume p: "0 < nearest (real_of_int n)"
  show "0 < n"
  proof (rule ccontr)
    assume "\<not> 0 < n"
    then have "nearest (real_of_int n) \<le> 0" by (intro nearest_nonpos) simp
    with p show False by simp
  qed
qed





lemma jdiv_Num: "b \<noteq> 0 \<Longrightarrow> jdiv (Num a) (Num b) = fl ((a < 0) \<noteq> (b < 0)) (a / b)"
  by (simp add: jdiv_finite)

lemma jmul_Num: "jmul (Num a) (Num b) = fl ((a < 0) \<noteq> (b < 0)) (a * b)"
  by (simp add: jmul_finite)

lemma fl_exact:
  assumes "nearest x = x" "x \<noteq> 0" "\<bar>x\<bar> \<le> 2 ^ 53"
  shows "fl s x = Num x"
proof -
  have "(2::real) ^ 53 < 2 ^ 1024" by (intro power_strict_increasing) simp_all
  with assms(3) have "\<bar>x\<bar> < 2 ^ 1024" by linarith
  with assms(1,2) show ?thesis by (intro fl_Num) simp_all
qed

lemma fl_numeral: "numeral k \<le> (2 ^ 53 :: int) \<Longrightarrow> fl s (numeral k) = Num (numeral k)"
proof -
  assume a: "numeral k \<le> (2 ^ 53 :: int)"
  then have "real_of_int (numeral k) \<le> real_of_int (2 ^ 53)" by (simp only: of_int_le_iff)
  then have "\<bar>numeral k :: real\<bar> \<le> 2 ^ 53" by simp
  then show ?thesis using a by (intro fl_exact) (simp_all add: nearest_numeral)
qed

lemma fl_neg_numeral:
  "numeral k \<le> (2 ^ 53 :: int) \<Longrightarrow> fl s (- numeral k) = Num (- numeral k)"
proof -
  assume a: "numeral k \<le> (2 ^ 53 :: int)"
  then have "real_of_int (numeral k) \<le> real_of_int (2 ^ 53)" by (simp only: of_int_le_iff)
  then have "\<bar>- numeral k :: real\<bar> \<le> 2 ^ 53" by simp
  then show ?thesis using a by (intro fl_exact) (simp_all add: nearest_neg_numeral)
qed

lemma fl_1 [simp]: "fl s 1 = Num 1"
  by (rule fl_exact) simp_all

subsection \<open>Printing with one decimal\<close>

lemma digits_small: "n < 10 \<Longrightarrow> digits n = [of_nat (48 + n)]"
  by (simp add: digits.simps)

lemma digits_large: "\<not> n < 10 \<Longrightarrow> digits n = digits (n div 10) @ [of_nat (48 + n mod 10)]"
  by (subst digits.simps) simp

lemma digits_nonempty: "digits n \<noteq> []"
  by (subst digits.simps) simp

lemma toFixedAbs_1:
  assumes "x < 10 ^ 21"
  shows "toFixedAbs h x 1 =
           digits (nat \<lfloor>x * 10 + 1 / 2\<rfloor> div 10) @ str ''.'' @ digits (nat \<lfloor>x * 10 + 1 / 2\<rfloor> mod 10)"
proof -
  define n where "n = nat \<lfloor>x * 10 + 1 / 2\<rfloor>"
  have last: "digits (n mod 10) = [of_nat (48 + n mod 10)]"
    by (simp add: digits_small)
  show ?thesis
  proof (cases "n < 10")
    case True
    then have "digits n = [of_nat (48 + n)]" "n div 10 = 0" "n mod 10 = n"
      by (simp_all add: digits_small)
    then show ?thesis
      using assms by (simp add: toFixedAbs_def n_def [symmetric] digits_small)
  next
    case False
    then have d: "digits n = digits (n div 10) @ [of_nat (48 + n mod 10)]"
      by (rule digits_large)
    have "length (digits (n div 10)) \<noteq> 0"
      using digits_nonempty by simp
    then show ?thesis
      using assms by (simp add: toFixedAbs_def n_def [symmetric] d last Let_def)
  qed
qed

lemma round_half_up:
  fixes x :: real
  assumes "0 \<le> x"
  shows "\<bar>real (nat \<lfloor>x * 10 + 1 / 2\<rfloor>) / 10 - x\<bar> \<le> 1 / 20"
proof -
  have "0 \<le> \<lfloor>x * 10 + 1 / 2\<rfloor>" using assms by simp
  then have "real (nat \<lfloor>x * 10 + 1 / 2\<rfloor>) = of_int \<lfloor>x * 10 + 1 / 2\<rfloor>" by simp
  moreover have "of_int \<lfloor>x * 10 + 1 / 2\<rfloor> \<le> x * 10 + 1 / 2" "x * 10 + 1 / 2 < of_int \<lfloor>x * 10 + 1 / 2\<rfloor> + 1"
    by linarith+
  ultimately show ?thesis by linarith
qed

subsection \<open>The estimator on finite values\<close>




subsection \<open>Strings and ids\<close>

lemma all_dropWhile: "(\<forall>x\<in>set (dropWhile P xs). P x) \<longleftrightarrow> (\<forall>x\<in>set xs. P x)"
proof
  assume a: "\<forall>x\<in>set (dropWhile P xs). P x"
  have "dropWhile P xs = []"
  proof (rule ccontr)
    assume n: "dropWhile P xs \<noteq> []"
    then have "\<not> P (hd (dropWhile P xs))" by (rule hd_dropWhile)
    moreover have "hd (dropWhile P xs) \<in> set (dropWhile P xs)" using n by simp
    ultimately show False using a by blast
  qed
  then show "\<forall>x\<in>set xs. P x" by (simp add: dropWhile_eq_Nil_conv)
next
  assume "\<forall>x\<in>set xs. P x"
  then show "\<forall>x\<in>set (dropWhile P xs). P x" by (blast dest: set_dropWhileD)
qed

lemma trim_empty_iff: "trim s = [] \<longleftrightarrow> (\<forall>c\<in>set s. isWhiteSpace c)"
  by (simp add: trim_def dropWhile_eq_Nil_conv all_dropWhile)

lemma Math_max0_Max: "Math_max0 xs = Max (insert 0 (set xs))"
  using Max.set_eq_fold [of 0 xs] by (simp add: Math_max0_def)

lemma Math_max0_ge: "x \<in> set xs \<Longrightarrow> x \<le> Math_max0 xs"
  by (simp add: Math_max0_Max)

lemma plus1_exact:
  assumes "0 \<le> n" "n < 2 ^ 53"
  shows "plus1 n = n + 1"
proof -
  have "nearest (real_of_int (n + 1)) = real_of_int (n + 1)"
    using assms by (intro nearest_int) simp
  moreover have "\<bar>real_of_int (n + 1)\<bar> \<le> 2 ^ 53"
  proof -
    have "real_of_int \<bar>n + 1\<bar> \<le> real_of_int (2 ^ 53)"
      using assms by (simp only: of_int_le_iff)
    then show ?thesis by simp
  qed
  moreover have "real_of_int (n + 1) \<noteq> 0" using assms(1) by simp
  ultimately have "fl False (real_of_int (n + 1)) = Num (real_of_int (n + 1))"
    by (intro fl_exact)
  then have "jadd (Num (real_of_int n)) (Num 1) = Num (real_of_int (n + 1))"
    by (simp add: jadd_Num)
  then show ?thesis by (simp add: plus1_def)
qed

lemma Math_max0_nonneg: "0 \<le> Math_max0 xs"
  by (simp add: Math_max0_Max)

subsection \<open>Sorting\<close>

lemma set_insert_cmp: "set (insert_cmp cmp x ys) = insert x (set ys)"
  by (induction ys) auto

lemma set_array_sort: "set (array_sort cmp xs) = set xs"
  by (induction xs) (simp_all add: array_sort_def set_insert_cmp)

lemma length_insert_cmp: "length (insert_cmp cmp x ys) = Suc (length ys)"
  by (induction ys) auto

lemma array_sort_Nil_iff: "array_sort cmp xs = [] \<longleftrightarrow> xs = []"
  using set_array_sort [of cmp xs] by (metis set_empty)

lemma timeOf_valid: "validDate h (date v) \<Longrightarrow> timeOf h v = Num (real_of_int (millis h v))"
  by (auto simp: validDate_def timeOf_def millis_def getTime_def newDate_def)

lemma byDate_positive:
  assumes "validDate h (date a)" "validDate h (date b)"
  shows "jlt (Num 0) (byDate h a b) \<longleftrightarrow> millis h b < millis h a"
proof -
  have "byDate h a b = fl False (real_of_int (millis h a - millis h b))"
    using timeOf_valid [OF assms(1)] timeOf_valid [OF assms(2)]
    by (simp add: byDate_def timeOf_def jsub_Num)
  then show ?thesis
    using nearest_of_int_pos [of "millis h a - millis h b"] by (simp add: jlt_0_fl)
qed


lemma insert_cmp_insort:
  assumes "validDate h (date x)" "\<forall>y\<in>set ys. validDate h (date y)"
  shows "insert_cmp (byDate h) x ys = insort_key (millis h) x ys"
  using assms by (induction ys) (auto simp: byDate_positive)

lemma array_sort_sort_key:
  assumes "\<forall>v\<in>set xs. validDate h (date v)"
  shows "array_sort (byDate h) xs = sort_key (millis h) xs"
  using assms
proof (induction xs)
  case Nil
  then show ?case by (simp add: array_sort_def)
next
  case (Cons x xs)
  then have "array_sort (byDate h) xs = sort_key (millis h) xs" by simp
  moreover have "\<forall>y\<in>set (sort_key (millis h) xs). validDate h (date y)"
    using Cons.prems by simp
  ultimately show ?case
    using Cons.prems by (simp add: array_sort_def insert_cmp_insort)
qed

lemma sortedByDate_millis:
  assumes "\<forall>v\<in>set vs. validDate h (date v)"
  shows "sortedByDate h vs \<longleftrightarrow> sorted (map (millis h) vs)"
proof -
  have "jle (timeOf h a) (timeOf h b) \<longleftrightarrow> millis h a \<le> millis h b"
    if "a \<in> set vs" "b \<in> set vs" for a b
    using that assms by (simp add: timeOf_valid)
  then have "sorted_wrt (\<lambda>a b. jle (timeOf h a) (timeOf h b)) vs
      \<longleftrightarrow> sorted_wrt (\<lambda>a b. millis h a \<le> millis h b) vs"
    by (metis (mono_tags, lifting) sorted_wrt_mono_rel)
  then show ?thesis by (simp add: sortedByDate_def sorted_map)
qed

lemma array_sort_sorted:
  assumes "\<forall>v\<in>set xs. validDate h (date v)"
  shows "sortedByDate h (array_sort (byDate h) xs)"
  using assms by (simp add: array_sort_sort_key sortedByDate_millis)

lemma array_sort_stable:
  assumes "\<forall>v\<in>set xs. validDate h (date v)"
  shows "filter (\<lambda>v. timeOf h v = t) (array_sort (byDate h) xs) = filter (\<lambda>v. timeOf h v = t) xs"
proof (cases "\<exists>k. t = Num (real_of_int k)")
  case True
  then obtain k where t: "t = Num (real_of_int k)" ..
  have eq: "filter (\<lambda>v. timeOf h v = t) ys = filter (\<lambda>v. millis h v = k) ys"
    if "\<forall>v\<in>set ys. validDate h (date v)" for ys
    using that by (intro filter_cong) (auto simp: timeOf_valid t)
  show ?thesis
    using assms by (simp add: eq array_sort_sort_key sort_key_stable)
next
  case False
  have "filter (\<lambda>v. timeOf h v = t) ys = []"
    if "\<forall>v\<in>set ys. validDate h (date v)" for ys
    using that False by (auto simp: filter_empty_conv timeOf_valid)
  then show ?thesis
    using assms by (simp add: set_array_sort)
qed

text \<open>Any stable arrangement in date order is the one \<open>array_sort\<close> computes.\<close>

lemma array_sort_unique:
  assumes "\<forall>v\<in>set xs. validDate h (date v)"
    and "mset ys = mset xs"
    and "sortedByDate h ys"
    and "\<And>t. filter (\<lambda>v. timeOf h v = t) ys = filter (\<lambda>v. timeOf h v = t) xs"
  shows "array_sort (byDate h) xs = ys"
proof -
  have sets: "set ys = set xs" using assms(2) by (rule mset_eq_setD)
  then have v: "\<forall>v\<in>set ys. validDate h (date v)" using assms(1) by simp
  have "sort_key (millis h) xs = ys"
  proof (rule properties_for_sort_key)
    show "mset ys = mset xs" by (rule assms(2))
    show "sorted (map (millis h) ys)" using assms(3) v by (simp add: sortedByDate_millis)
    show "filter (\<lambda>x. millis h k = millis h x) ys = filter (\<lambda>x. millis h k = millis h x) xs"
      if "k \<in> set ys" for k
    proof -
      have "filter (\<lambda>x. millis h k = millis h x) zs
          = filter (\<lambda>v. timeOf h v = Num (real_of_int (millis h k))) zs"
        if "\<forall>v\<in>set zs. validDate h (date v)" for zs
        using that by (intro filter_cong) (auto simp: timeOf_valid)
      then show ?thesis using assms(1) v assms(4) by simp
    qed
  qed
  then show ?thesis using assms(1) by (simp add: array_sort_sort_key)
qed

subsection \<open>The store operations\<close>

lemma addValueEntry_effective:
  assumes "selectedMetric st = Some i" "i \<noteq> 0" "newValue st \<noteq> []"
  shows "addValueEntry h day1 day2 st =
           Inr (st\<lparr>metrics :=
                  map (\<lambda>metric. if metric_id metric = i
                         then metric\<lparr>metric_values :=
                                array_sort (byDate h)
                                  (metric_values metric @
                                     [\<lparr>date = day1, entry_value = parseFloat h (newValue st)\<rparr>]),
                              lastUpdated := Some day2\<rparr>
                         else metric)
                    (metrics st),
                newValue := []\<rparr>)"
  using assms by (simp add: addValueEntry_def Let_def)

lemma addValueEntry_consistent:
  assumes "\<forall>m\<in>set (metrics st). consistent m" "addValueEntry h day1 day2 st = Inr st'"
  shows "\<forall>m\<in>set (metrics st'). consistent m"
  using assms
  by (auto simp: addValueEntry_def Let_def consistent_def array_sort_Nil_iff split: if_splits)

lemma addMetric_consistent:
  assumes "\<forall>m\<in>set (metrics st). consistent m" "addMetric st = Inr st'"
  shows "\<forall>m\<in>set (metrics st'). consistent m"
  using assms by (auto simp: addMetric_def consistent_def split: if_splits)

lemma deleteMetric_consistent:
  assumes "\<forall>m\<in>set (metrics st). consistent m" "deleteMetric i st = Inr st'"
  shows "\<forall>m\<in>set (metrics st'). consistent m"
  using assms by (auto simp: deleteMetric_def)

lemma initial_consistent: "\<forall>m\<in>set (metrics initial). consistent m"
  by (simp add: initial_def consistent_def)

lemma filter_id_zero_map:
  assumes "sel \<noteq> Some 0" and "\<And>m. metric_id (f m) = metric_id m"
  shows "filter (\<lambda>m. metric_id m = 0)
           (map (\<lambda>metric. if Some (metric_id metric) = sel then f metric else metric) ms)
         = filter (\<lambda>m. metric_id m = 0) ms"
  using assms by (induction ms) auto

subsection \<open>The invariant of the reachable states\<close>

lemma store_inv_initial: "store_inv h initial"
  by (simp add: store_inv_def initial_def consistent_def sortedByDate_def)

lemma store_inv_addMetric:
  assumes "store_inv h st" "addMetric st = Inr st'"
  shows "store_inv h st'"
  using assms
  by (auto simp: addMetric_def store_inv_def consistent_def sortedByDate_def split: if_splits)

lemma store_inv_addValueEntry:
  assumes "store_inv h st" "validDate h day1" "addValueEntry h day1 day2 st = Inr st'"
  shows "store_inv h st'"
proof (cases "selectedMetric st = None \<or> selectedMetric st = Some 0 \<or> newValue st = []")
  case True
  with assms show ?thesis by (auto simp: addValueEntry_def)
next
  case False
  then obtain i where i: "selectedMetric st = Some i" "i \<noteq> 0" "newValue st \<noteq> []"
    by auto
  let ?new = "\<lparr>date = day1, entry_value = parseFloat h (newValue st)\<rparr>"
  let ?f = "\<lambda>metric. if metric_id metric = i
              then metric\<lparr>metric_values := array_sort (byDate h) (metric_values metric @ [?new]),
                         lastUpdated := Some day2\<rparr>
              else metric"
  have st': "metrics st' = map ?f (metrics st)"
    using assms(3) unfolding addValueEntry_effective [OF i] by auto
  have each: "consistent (?f m) \<and>
        (\<forall>v\<in>set (metric_values (?f m)). validDate h (date v)) \<and>
        sortedByDate h (metric_values (?f m))"
    if m: "m \<in> set (metrics st)" for m
  proof -
    from assms(1) m have inv: "consistent m"
      "\<forall>v\<in>set (metric_values m). validDate h (date v)" "sortedByDate h (metric_values m)"
      by (auto simp: store_inv_def)
    have valid: "\<forall>v\<in>set (metric_values m @ [?new]). validDate h (date v)"
      using inv(2) assms(2) by simp
    show ?thesis
      using inv valid array_sort_sorted [OF valid]
      by (simp add: set_array_sort consistent_def array_sort_Nil_iff)
  qed
  have "consistent m' \<and>
        (\<forall>v\<in>set (metric_values m'). validDate h (date v)) \<and>
        sortedByDate h (metric_values m')"
    if "m' \<in> set (metrics st')" for m'
  proof -
    from that obtain m where "m \<in> set (metrics st)" "m' = ?f m"
      unfolding st' by auto
    then show ?thesis using each [of m] by simp
  qed
  then show ?thesis
    unfolding store_inv_def by blast
qed

lemma store_inv_deleteMetric:
  assumes "store_inv h st" "deleteMetric i st = Inr st'"
  shows "store_inv h st'"
  using assms by (auto simp: store_inv_def deleteMetric_def)

lemma reachable_store_inv: "reachable h st \<Longrightarrow> store_inv h st"
proof (induction rule: reachable.induct)
  case start
  show ?case by (rule store_inv_initial)
next
  case (edit st n b s v)
  then show ?case by (simp add: store_inv_def)
next
  case (add st st')
  then show ?case by (blast intro: store_inv_addMetric)
next
  case (entry st day1 day2 st')
  then show ?case by (blast intro: store_inv_addValueEntry)
next
  case (delete st i st')
  then show ?case by (blast intro: store_inv_deleteMetric)
qed

subsection \<open>Evaluation of the examples\<close>

lemmas example_defs = example_host_def example_store_def sample_def str_def
lemmas number_defs = jdiv_Num jmul_Num jadd_Num jsub_Num fl_numeral fl_neg_numeral
  zero_def infty_def jdiv_def

lemmas date_defs = newDate_def getTime_def newDateNum_def timeClip_def toLocaleDateString_def
  validDate_def timeOf_def
lemmas text_defs = toFixed_def toFixedAbs_def digits_small digits_large

lemma nearest_3_2: "nearest (3 / 2) = 3 / 2"
  using nearest_dyadic [of 3 "- 1"] by simp

lemma nearest_9_2: "nearest (9 / 2) = 9 / 2"
  using nearest_dyadic [of 9 "- 1"] by simp

lemma nearest_31_30: "nearest (31 / 30) = 4653719614949513 / 2 ^ 52"
proof -
  have "expo (31 / 30) = 0" by (rule expo_eq) simp_all
  then show ?thesis by (simp add: nearest_def ulp_def round_even_def Let_def)
qed

lemma nearest_3_20: "nearest (3 / 20) = 5404319552844595 / 2 ^ 55"
proof -
  have "expo (3 / 20) = - 3" by (rule expo_eq) simp_all
  then show ?thesis by (simp add: nearest_def ulp_def round_even_def Let_def)
qed

lemma fl_3_2: "fl s (3 / 2) = Num (3 / 2)"
  by (rule fl_exact) (simp_all add: nearest_3_2)

lemma fl_9_2: "fl s (9 / 2) = Num (9 / 2)"
  by (rule fl_exact) (simp_all add: nearest_9_2)

lemma fl_31_30: "fl s (31 / 30) = Num (4653719614949513 / 2 ^ 52)"
  by (rule fl_Num) (simp_all add: nearest_31_30)

lemma fl_3_20: "fl s (3 / 20) = Num (5404319552844595 / 2 ^ 55)"
  by (rule fl_Num) (simp_all add: nearest_3_20)

lemma log_2_4: "log 2 4 = 2"
proof -
  have "log 2 (2 ^ 2) = 2" by (subst log_pow_cancel) simp_all
  then show ?thesis by simp
qed

lemmas store_defs = addValueEntry_def addMetric_def array_sort_def byDate_def Math_max0_def

lemma nearest_2_53_1: "nearest 9007199254740993 = 9007199254740992"
proof -
  have "expo 9007199254740993 = 53" by (rule expo_eq) simp_all
  then show ?thesis by (simp add: nearest_def ulp_def round_even_def Let_def)
qed

text \<open>An entry of January 1st goes in front of the stored entry of February 1st.\<close>

lemma addValueEntry_example:
  "addValueEntry example_host (str ''2024-01-01'') (str ''2024-01-01'')
     (example_store 1 (Some 1) ''7'') =
     Inr ((example_store 1 (Some 1) ''7'')
       \<lparr>metrics :=
          [\<lparr>metric_id = 1, name = str ''Followers'',
            metric_values = [sample ''2024-01-01'' 7, sample ''2024-02-01'' 5],
            baseValue = Num 100, lastUpdated = Some (str ''2024-01-01'')\<rparr>,
           \<lparr>metric_id = 2, name = str ''Revenue'', metric_values = [], baseValue = Num 1000,
            lastUpdated = None\<rparr>],
        newValue := []\<rparr>)"
  by (simp add: store_defs example_defs number_defs date_defs Let_def)

section \<open>The estimator\<close>



text \<open>
  Growth 4 in 9 days: 4.5 days per doubling. The quotient 4.5 / 30 is the double just below
  0.15, which prints as 0.1.
\<close>

lemma calculateDoublingRate_example:
  "calculateDoublingRate example_host [sample ''2024-01-01'' 100, sample ''2024-01-10'' 400] =
     Inr (Rate \<lparr>daysPerDoubling = str ''4.5'', monthsPerDoubling = str ''0.1'',
                projectedNextDouble = str ''1/14/2024''\<rparr>)"
  by (simp add: calculateDoublingRate_def example_defs number_defs date_defs text_defs Let_def
      log_2_4 fl_9_2 fl_3_20)

text \<open>
  Claim C2. For a sample sequence of length 0 or 1 the estimator returns the status
  of insufficient data (the text \<^verbatim>\<open>Need more data\<close>); for a sequence of length at least 2
  whose growth is below 2 it returns the status of not yet doubled (the text
  \<^verbatim>\<open>Not doubled yet\<close>); when the growth is exactly 2 it returns a rate, not a status.
\<close>

theorem calculateDoublingRate_status:
  "(length vs < 2 \<longrightarrow> calculateDoublingRate h vs = Inr (Status (str ''Need more data''))) \<and>
   (2 \<le> length vs \<and> jlt (jdiv (entry_value (vs ! (length vs - 1))) (entry_value (vs ! 0))) (Num 2)
      \<longrightarrow> calculateDoublingRate h vs = Inr (Status (str ''Not doubled yet''))) \<and>
   (2 \<le> length vs \<and> jdiv (entry_value (vs ! (length vs - 1))) (entry_value (vs ! 0)) = Num 2
      \<longrightarrow> (\<exists>r. calculateDoublingRate h vs = Inr (Rate r)))"
  by (simp add: calculateDoublingRate_def Let_def)

text \<open>
  The three cases at the empty sequence, at a growth of 1.5 and at a growth of 2.
\<close>

theorem calculateDoublingRate_status_witness:
  "length ([] :: MetricValue list) < 2 \<and>
   calculateDoublingRate example_host [] = Inr (Status (str ''Need more data'')) \<and>
   2 \<le> length [sample ''2024-01-01'' 100, sample ''2024-02-01'' 150] \<and>
   jlt (jdiv (Num 150) (Num 100)) (Num 2) \<and>
   calculateDoublingRate example_host [sample ''2024-01-01'' 100, sample ''2024-02-01'' 150] =
     Inr (Status (str ''Not doubled yet'')) \<and>
   jdiv (Num 200) (Num 100) = Num 2 \<and>
   (\<exists>r. calculateDoublingRate example_host [sample ''2024-01-01'' 100, sample ''2024-02-01'' 200] =
     Inr (Rate r))"
  using calculateDoublingRate_status [of "[]" example_host]
    calculateDoublingRate_status [of "[sample ''2024-01-01'' 100, sample ''2024-02-01'' 150]" example_host]
    calculateDoublingRate_status [of "[sample ''2024-01-01'' 100, sample ''2024-02-01'' 200]" example_host]
  by (simp add: sample_def number_defs fl_3_2)

text \<open>
  Claim C6 says that the estimator signals \<open>InvalidInput\<close> when the first value is zero
  or negative. The source has no such guard. At the samples 0 and 5 the quotient is
  infinite, which is not below 2, and the estimator returns a rate of 0.0 days.
\<close>

theorem calculateDoublingRate_nonpositive_first_counterexample:
  "jle (entry_value ([sample ''2024-01-01'' 0, sample ''2024-02-01'' 5] ! 0)) (Num 0) \<and>
   calculateDoublingRate example_host [sample ''2024-01-01'' 0, sample ''2024-02-01'' 5] =
     Inr (Rate \<lparr>daysPerDoubling = str ''0.0'', monthsPerDoubling = str ''0.0'',
                projectedNextDouble = str ''2/1/2024''\<rparr>) \<and>
   calculateDoublingRate example_host [sample ''2024-01-01'' 0, sample ''2024-02-01'' 5] \<noteq>
     Inl InvalidInput"
  by (simp add: calculateDoublingRate_def example_defs number_defs date_defs text_defs Let_def)

text \<open>
  Claim C6, amended. For every sample sequence of length at least 2 whose first value is
  zero or negative the estimator signals no error: it returns the status
  \<^verbatim>\<open>Not doubled yet\<close> when the quotient \<open>last.value / first.value\<close> is below 2, and a
  rate otherwise.
\<close>

theorem calculateDoublingRate_nonpositive_first:
  assumes "2 \<le> length vs"
    and "jle (entry_value (vs ! 0)) (Num 0)"
  shows "(\<forall>e. calculateDoublingRate h vs \<noteq> Inl e) \<and>
         (jlt (jdiv (entry_value (vs ! (length vs - 1))) (entry_value (vs ! 0))) (Num 2)
            \<longrightarrow> calculateDoublingRate h vs = Inr (Status (str ''Not doubled yet''))) \<and>
         (\<not> jlt (jdiv (entry_value (vs ! (length vs - 1))) (entry_value (vs ! 0))) (Num 2)
            \<longrightarrow> (\<exists>r. calculateDoublingRate h vs = Inr (Rate r)))"
  using assms(1) by (simp add: calculateDoublingRate_def Let_def)

text \<open>
  The amended claim at the samples \<open>-1\<close>, 5 (quotient \<open>-5\<close>) and \<open>-1\<close>, \<open>-4\<close> (quotient 4).
\<close>

theorem calculateDoublingRate_nonpositive_first_witness:
  "2 \<le> length [sample ''2024-01-01'' (- 1), sample ''2024-02-01'' 5] \<and>
   jle (Num (- 1)) (Num 0) \<and> jlt (jdiv (Num 5) (Num (- 1))) (Num 2) \<and>
   calculateDoublingRate example_host [sample ''2024-01-01'' (- 1), sample ''2024-02-01'' 5] =
     Inr (Status (str ''Not doubled yet'')) \<and>
   2 \<le> length [sample ''2024-01-01'' (- 1), sample ''2024-02-01'' (- 4)] \<and>
   \<not> jlt (jdiv (Num (- 4)) (Num (- 1))) (Num 2) \<and>
   (\<exists>r. calculateDoublingRate example_host [sample ''2024-01-01'' (- 1), sample ''2024-02-01'' (- 4)] =
      Inr (Rate r))"
  using calculateDoublingRate_nonpositive_first
      [of "[sample ''2024-01-01'' (- 1), sample ''2024-02-01'' 5]" example_host]
    calculateDoublingRate_nonpositive_first
      [of "[sample ''2024-01-01'' (- 1), sample ''2024-02-01'' (- 4)]" example_host]
  by (simp add: sample_def number_defs)

section \<open>The store\<close>

text \<open>
  Claim C3. After every \<^verbatim>\<open>addValueEntry\<close> that appends to a metric, whatever the order of
  the dates stored before, the samples of that metric are sorted ascending by date, and
  samples of equal date keep their relative order, the new one last. The dates are
  assumed to parse, as the dates that \<^verbatim>\<open>addValueEntry\<close> itself writes do.
\<close>

theorem addValueEntry_sorted:
  assumes "selectedMetric st = Some i" "i \<noteq> 0" "newValue st \<noteq> []"
    and "validDate h day1"
    and "\<forall>m\<in>set (metrics st). metric_id m = i \<longrightarrow> (\<forall>v\<in>set (metric_values m). validDate h (date v))"
  shows "\<exists>st'. addValueEntry h day1 day2 st = Inr st' \<and> length (metrics st') = length (metrics st) \<and>
           (\<forall>k<length (metrics st). metric_id (metrics st ! k) = i \<longrightarrow>
              sortedByDate h (metric_values (metrics st' ! k)) \<and>
              (\<forall>t. filter (\<lambda>v. timeOf h v = t) (metric_values (metrics st' ! k)) =
                   filter (\<lambda>v. timeOf h v = t)
                     (metric_values (metrics st ! k) @
                        [\<lparr>date = day1, entry_value = parseFloat h (newValue st)\<rparr>])))"
proof -
  let ?new = "\<lparr>date = day1, entry_value = parseFloat h (newValue st)\<rparr>"
  have valid: "\<forall>v\<in>set (metric_values (metrics st ! k) @ [?new]). validDate h (date v)"
    if "k < length (metrics st)" "metric_id (metrics st ! k) = i" for k
    using that assms(4,5) by (auto dest: nth_mem)
  show ?thesis
    unfolding addValueEntry_effective [OF assms(1-3)]
    by (auto simp: array_sort_sorted [OF valid] array_sort_stable [OF valid] simp del: filter_append)
qed

text \<open>
  The theorem at a store whose metric 1 holds a sample of February 1st, on January 1st.
\<close>

theorem addValueEntry_sorted_witness:
  "selectedMetric (example_store 1 (Some 1) ''7'') = Some 1 \<and> (1 :: int) \<noteq> 0 \<and>
   newValue (example_store 1 (Some 1) ''7'') \<noteq> [] \<and>
   validDate example_host (str ''2024-01-01'') \<and>
   validDate example_host (date (sample ''2024-02-01'' 5)) \<and>
   (\<exists>st'. addValueEntry example_host (str ''2024-01-01'') (str ''2024-01-01'') (example_store 1 (Some 1) ''7'') = Inr st' \<and>
      sortedByDate example_host (metric_values (metrics st' ! 0)))"
proof -
  let ?st = "example_store 1 (Some 1) ''7''"
  have h: "selectedMetric ?st = Some 1" "(1 :: int) \<noteq> 0" "newValue ?st \<noteq> []"
    "validDate example_host (str ''2024-01-01'')"
    "validDate example_host (date (sample ''2024-02-01'' 5))"
    by (simp_all add: example_defs validDate_def)
  have v: "\<forall>m\<in>set (metrics ?st). metric_id m = 1 \<longrightarrow>
             (\<forall>v\<in>set (metric_values m). validDate example_host (date v))"
    using h(5) by (simp add: example_store_def)
  have k: "0 < length (metrics ?st)" "metric_id (metrics ?st ! 0) = 1"
    by (simp_all add: example_store_def)
  from addValueEntry_sorted [OF h(1-4) v, of "str ''2024-01-01''"] k h show ?thesis by blast
qed

text \<open>
  Claim C4 says that the id of a new metric is \<open>1 + max (existing ids, 0)\<close> and greater
  than every id in the store. The sum is one of doubles: with the ids \<open>2^53 - 1\<close> and
  \<open>2^53\<close> in the store, \<open>2^53 + 1\<close> rounds to \<open>2^53\<close>, and the new metric gets an id that
  the store holds already.
\<close>

theorem addMetric_id_counterexample:
  "trim (newMetricName (example_store 9007199254740991 None ''7'')) \<noteq> [] \<and>
   map metric_id (metrics (example_store 9007199254740991 None ''7'')) =
     [9007199254740991, 9007199254740992] \<and>
   addMetric (example_store 9007199254740991 None ''7'') =
     Inr ((example_store 9007199254740991 None ''7'')
            \<lparr>metrics := metrics (example_store 9007199254740991 None ''7'') @
               [\<lparr>metric_id = 9007199254740992, name = str ''Customers'', metric_values = [],
                 baseValue = Num 10, lastUpdated = None\<rparr>],
             newMetricName := [], newBaseValue := Num 100\<rparr>)"
proof -
  have "plus1 9007199254740992 = 9007199254740992"
    by (simp add: plus1_def jadd_Num fl_Num [OF nearest_2_53_1])
  then show ?thesis
    by (simp add: addMetric_def trim_empty_iff example_defs isWhiteSpace_def Math_max0_def)
qed

text \<open>
  Claim C4, amended. For every \<^verbatim>\<open>addMetric\<close> that creates a metric (the trimmed name is
  not empty) in a store whose ids are all below \<open>2^53\<close>, the id of the new metric is
  \<open>1 + max (existing ids, 0)\<close> and is greater than every id in the store.
\<close>

theorem addMetric_id:
  assumes "trim (newMetricName st) \<noteq> []"
    and "\<forall>m\<in>set (metrics st). metric_id m < 2 ^ 53"
  shows "\<exists>m. addMetric st =
                Inr (st\<lparr>metrics := metrics st @ [m], newMetricName := [], newBaseValue := Num 100\<rparr>) \<and>
              metric_id m = 1 + Max (insert 0 (metric_id ` set (metrics st))) \<and>
              (\<forall>m'\<in>set (metrics st). metric_id m' < metric_id m)"
proof -
  let ?ids = "map metric_id (metrics st)"
  let ?m = "\<lparr>metric_id = plus1 (Math_max0 ?ids), name = newMetricName st, metric_values = [],
             baseValue = newBaseValue st, lastUpdated = None\<rparr>"
  have "Math_max0 ?ids < 2 ^ 53"
    using assms(2) by (simp add: Math_max0_Max)
  then have p: "plus1 (Math_max0 ?ids) = Math_max0 ?ids + 1"
    by (intro plus1_exact Math_max0_nonneg)
  have "addMetric st =
          Inr (st\<lparr>metrics := metrics st @ [?m], newMetricName := [], newBaseValue := Num 100\<rparr>)"
    using assms(1) by (simp add: addMetric_def)
  moreover have "metric_id ?m = 1 + Max (insert 0 (metric_id ` set (metrics st)))"
    using p by (simp add: Math_max0_Max)
  moreover have "metric_id m' < metric_id ?m" if "m' \<in> set (metrics st)" for m'
    using that Math_max0_ge [of "metric_id m'" ?ids] by (simp add: p)
  ultimately show ?thesis by blast
qed

text \<open>
  The amended claim at a store with the ids 1 and 2: the new id is 3.
\<close>

theorem addMetric_id_witness:
  "trim (newMetricName (example_store 1 None ''7'')) \<noteq> [] \<and>
   (1 :: int) < 2 ^ 53 \<and> (2 :: int) < 2 ^ 53 \<and>
   (\<exists>m. addMetric (example_store 1 None ''7'') =
           Inr ((example_store 1 None ''7'')
                  \<lparr>metrics := metrics (example_store 1 None ''7'') @ [m],
                   newMetricName := [], newBaseValue := Num 100\<rparr>) \<and>
         metric_id m = 3 \<and> 1 < metric_id m \<and> 2 < metric_id m)"
proof -
  let ?st = "example_store 1 None ''7''"
  have h: "trim (newMetricName ?st) \<noteq> []"
    by (simp add: trim_empty_iff example_defs isWhiteSpace_def)
  have b: "\<forall>m\<in>set (metrics ?st). metric_id m < 2 ^ 53"
    by (simp add: example_store_def)
  have "1 + Max (insert 0 (metric_id ` set (metrics ?st))) = 3"
    by (simp add: example_store_def)
  with addMetric_id [OF h b] h show ?thesis by auto
qed

text \<open>
  Claim C5 says that \<^verbatim>\<open>addValueEntry\<close> fails with \<open>NotFound\<close> when no metric has the
  selected id. The source signals nothing: with the ids 1 and 2 in the store and the
  selection 5, the call completes, the metrics are as before and the value field is
  cleared.
\<close>

theorem addValueEntry_unknown_id_counterexample:
  "5 \<notin> set (map metric_id (metrics (example_store 1 (Some 5) ''7''))) \<and>
   addValueEntry example_host (str ''2024-01-01'') (str ''2024-01-01'') (example_store 1 (Some 5) ''7'') =
     Inr ((example_store 1 (Some 5) ''7'')\<lparr>newValue := []\<rparr>) \<and>
   addValueEntry example_host (str ''2024-01-01'') (str ''2024-01-01'') (example_store 1 (Some 5) ''7'') \<noteq> Inl NotFound"
  by (simp add: store_defs example_defs Let_def)

text \<open>
  Claim C5, amended. When no metric of the store has the selected id,
  \<^verbatim>\<open>addValueEntry\<close> signals no error and leaves every metric unchanged; it clears the
  value field unless the guard on the selection and the value returns first.
\<close>

theorem addValueEntry_unknown_id:
  assumes "\<forall>m\<in>set (metrics st). Some (metric_id m) \<noteq> selectedMetric st"
  shows "addValueEntry h day1 day2 st =
           Inr (if selectedMetric st = None \<or> selectedMetric st = Some 0 \<or> newValue st = []
                then st else st\<lparr>newValue := []\<rparr>)"
proof -
  have "map (\<lambda>metric. if Some (metric_id metric) = selectedMetric st then f metric else metric)
          (metrics st) = metrics st" for f
    using assms by (simp add: map_idI)
  then show ?thesis
    by (simp add: addValueEntry_def Let_def)
qed

text \<open>
  The amended claim at the ids 1 and 2 and the selection 9.
\<close>

theorem addValueEntry_unknown_id_witness:
  "Some (1 :: int) \<noteq> Some 9 \<and> Some (2 :: int) \<noteq> Some 9 \<and>
   metrics (example_store 1 (Some 9) ''7'') \<noteq> [] \<and>
   addValueEntry example_host (str ''2024-01-01'') (str ''2024-01-01'') (example_store 1 (Some 9) ''7'') =
     Inr ((example_store 1 (Some 9) ''7'')\<lparr>newValue := []\<rparr>)"
  using addValueEntry_unknown_id [of "example_store 1 (Some 9) ''7''" example_host "str ''2024-01-01''" "str ''2024-01-01''"]
  by (simp add: example_defs)

text \<open>
  What \<^verbatim>\<open>addValueEntry\<close> does for the metric it appends to: the new sample carries the
  first clock reading, \<^verbatim>\<open>lastUpdated\<close> the second; \<^verbatim>\<open>lastUpdated\<close> is absent exactly when the
  metric has no samples, and the call keeps that equivalence for every metric of the
  store for which it held before.
\<close>

lemma addValueEntry_reads:
  assumes "selectedMetric st = Some i" "i \<noteq> 0" "newValue st \<noteq> []"
  shows "\<exists>st'. addValueEntry h day1 day2 st = Inr st' \<and> length (metrics st') = length (metrics st) \<and>
           (\<forall>k<length (metrics st). metric_id (metrics st ! k) = i \<longrightarrow>
              lastUpdated (metrics st' ! k) = Some day2 \<and>
              \<lparr>date = day1, entry_value = parseFloat h (newValue st)\<rparr>
                \<in> set (metric_values (metrics st' ! k)) \<and>
              consistent (metrics st' ! k)) \<and>
           ((\<forall>m\<in>set (metrics st). consistent m) \<longrightarrow> (\<forall>m\<in>set (metrics st'). consistent m))"
proof -
  obtain st' where st': "addValueEntry h day1 day2 st = Inr st'"
    using addValueEntry_effective [OF assms] by blast
  have "(\<forall>m\<in>set (metrics st). consistent m) \<longrightarrow> (\<forall>m\<in>set (metrics st'). consistent m)"
    using addValueEntry_consistent [OF _ st'] by blast
  moreover have "length (metrics st') = length (metrics st)"
    using st' unfolding addValueEntry_effective [OF assms] by auto
  moreover have "lastUpdated (metrics st' ! k) = Some day2 \<and>
              \<lparr>date = day1, entry_value = parseFloat h (newValue st)\<rparr>
                \<in> set (metric_values (metrics st' ! k)) \<and>
              consistent (metrics st' ! k)"
    if "k < length (metrics st)" "metric_id (metrics st ! k) = i" for k
    using st' that unfolding addValueEntry_effective [OF assms]
    by (auto simp: set_array_sort consistent_def array_sort_Nil_iff)
  ultimately show ?thesis using st' by blast
qed

lemma addValueEntry_same_day:
  assumes "selectedMetric st = Some i" "i \<noteq> 0" "newValue st \<noteq> []"
  shows "\<exists>st'. addValueEntry h day day st = Inr st' \<and>
           (\<forall>k<length (metrics st). metric_id (metrics st ! k) = i \<longrightarrow>
              lastUpdated (metrics st' ! k) = Some day \<and>
              \<lparr>date = day, entry_value = parseFloat h (newValue st)\<rparr>
                \<in> set (metric_values (metrics st' ! k)))"
  using addValueEntry_reads [OF assms, of h day day] by blast

text \<open>
  Claim C7. After every \<^verbatim>\<open>addValueEntry\<close> that appends a sample of date \<open>d\<close> to a metric,
  the \<^verbatim>\<open>lastUpdated\<close> field of that metric is \<open>d\<close>. The source evaluates
  \<^verbatim>\<open>new Date()\<close> once for the date of the sample and once more for \<^verbatim>\<open>lastUpdated\<close>. When
  midnight UTC falls between the two readings, here January 1st and January 2nd, the
  metric holds the new sample of January 1st and a \<^verbatim>\<open>lastUpdated\<close> of January 2nd.
\<close>

theorem addValueEntry_lastUpdated_midnight:
  "addValueEntry example_host (str ''2024-01-01'') (str ''2024-01-02'')
     (example_store 1 (Some 1) ''7'') =
     Inr ((example_store 1 (Some 1) ''7'')
       \<lparr>metrics :=
          [\<lparr>metric_id = 1, name = str ''Followers'',
            metric_values = [sample ''2024-01-01'' 7, sample ''2024-02-01'' 5],
            baseValue = Num 100, lastUpdated = Some (str ''2024-01-02'')\<rparr>,
           \<lparr>metric_id = 2, name = str ''Revenue'', metric_values = [], baseValue = Num 1000,
            lastUpdated = None\<rparr>],
        newValue := []\<rparr>) \<and>
   str ''2024-01-02'' \<noteq> str ''2024-01-01''"
  by (simp add: store_defs example_defs number_defs date_defs Let_def)

text \<open>
  Claim C8. \<^verbatim>\<open>addMetric\<close> with an empty name or one of white space only leaves the state
  unchanged; every metric that \<^verbatim>\<open>addMetric\<close> creates has no samples and no
  \<^verbatim>\<open>lastUpdated\<close>.
\<close>

theorem addMetric_blank_name:
  "((\<forall>c\<in>set (newMetricName st). isWhiteSpace c) \<longrightarrow> addMetric st = Inr st) \<and>
   (\<not> (\<forall>c\<in>set (newMetricName st). isWhiteSpace c) \<longrightarrow>
      (\<exists>m. addMetric st =
              Inr (st\<lparr>metrics := metrics st @ [m], newMetricName := [], newBaseValue := Num 100\<rparr>) \<and>
            metric_values m = [] \<and> lastUpdated m = None))"
proof (cases "\<forall>c\<in>set (newMetricName st). isWhiteSpace c")
  case True
  then show ?thesis by (simp add: addMetric_def trim_empty_iff)
next
  case False
  let ?m = "\<lparr>metric_id = plus1 (Math_max0 (map metric_id (metrics st))), name = newMetricName st,
             metric_values = [], baseValue = newBaseValue st, lastUpdated = None\<rparr>"
  have "trim (newMetricName st) \<noteq> []"
    using False unfolding trim_empty_iff .
  then have "addMetric st =
          Inr (st\<lparr>metrics := metrics st @ [?m], newMetricName := [], newBaseValue := Num 100\<rparr>)"
    by (simp add: addMetric_def)
  moreover have "metric_values ?m = [] \<and> lastUpdated ?m = None" by simp
  ultimately show ?thesis using False by blast
qed

text \<open>
  The theorem at the name of a space and a tab, and at the name \<^verbatim>\<open>Customers\<close>.
\<close>

theorem addMetric_blank_name_witness:
  "isWhiteSpace 0x20 \<and> isWhiteSpace 0x9 \<and>
   addMetric ((example_store 1 None ''7'')\<lparr>newMetricName := [0x20, 0x9]\<rparr>) =
     Inr ((example_store 1 None ''7'')\<lparr>newMetricName := [0x20, 0x9]\<rparr>) \<and>
   \<not> (\<forall>c\<in>set (newMetricName (example_store 1 None ''7'')). isWhiteSpace c) \<and>
   (\<exists>m. addMetric (example_store 1 None ''7'') =
           Inr ((example_store 1 None ''7'')
                  \<lparr>metrics := metrics (example_store 1 None ''7'') @ [m],
                   newMetricName := [], newBaseValue := Num 100\<rparr>) \<and>
         metric_values m = [] \<and> lastUpdated m = None)"
proof -
  have b: "\<forall>c\<in>set (newMetricName ((example_store 1 None ''7'')\<lparr>newMetricName := [0x20, 0x9]\<rparr>)).
             isWhiteSpace c"
    by (simp add: isWhiteSpace_def)
  have n: "\<not> (\<forall>c\<in>set (newMetricName (example_store 1 None ''7'')). isWhiteSpace c)"
    by (simp add: example_defs isWhiteSpace_def)
  from addMetric_blank_name [of "(example_store 1 None ''7'')\<lparr>newMetricName := [0x20, 0x9]\<rparr>"]
    addMetric_blank_name [of "example_store 1 None ''7''"] b n
  show ?thesis by (simp add: isWhiteSpace_def)
qed

text \<open>
  Claim C9. When the selected id is 0, \<^verbatim>\<open>addValueEntry\<close> returns the state unchanged,
  because the guard takes 0 for no selection; and no call of \<^verbatim>\<open>addValueEntry\<close>, whatever
  the selection, changes the metrics of id 0, so such a metric never receives samples.
\<close>

theorem addValueEntry_id_zero:
  "(selectedMetric st = Some 0 \<longrightarrow> addValueEntry h day1 day2 st = Inr st) \<and>
   (\<exists>st'. addValueEntry h day1 day2 st = Inr st' \<and>
      filter (\<lambda>m. metric_id m = 0) (metrics st') = filter (\<lambda>m. metric_id m = 0) (metrics st))"
  by (simp add: addValueEntry_def Let_def filter_id_zero_map)

text \<open>
  The theorem at a store that has a metric of id 0, with the selection 0.
\<close>

theorem addValueEntry_id_zero_witness:
  "metric_id (metrics (example_store 0 (Some 0) ''7'') ! 0) = 0 \<and>
   selectedMetric (example_store 0 (Some 0) ''7'') = Some 0 \<and>
   addValueEntry example_host (str ''2024-01-01'') (str ''2024-01-01'') (example_store 0 (Some 0) ''7'') =
     Inr (example_store 0 (Some 0) ''7'')"
  using addValueEntry_id_zero [of "example_store 0 (Some 0) ''7''" example_host "str ''2024-01-01''" "str ''2024-01-01''"]
  by (simp add: example_store_def)

text \<open>
  Claim C10. For every store and every call of \<^verbatim>\<open>addValueEntry\<close>, each metric whose id
  is not the selected one is unchanged in all its fields, and the metrics keep their
  positions: the list of ids is the same before and after.
\<close>

theorem addValueEntry_frame:
  "\<exists>st'. addValueEntry h day1 day2 st = Inr st' \<and>
     map metric_id (metrics st') = map metric_id (metrics st) \<and>
     (\<forall>k<length (metrics st). Some (metric_id (metrics st ! k)) \<noteq> selectedMetric st \<longrightarrow>
        metrics st' ! k = metrics st ! k)"
  by (simp add: addValueEntry_def Let_def comp_def)

text \<open>
  The theorem at a store with the ids 1 and 2 and the selection 1: metric 2 is unchanged.
\<close>

theorem addValueEntry_frame_witness:
  "1 < length (metrics (example_store 1 (Some 1) ''7'')) \<and>
   Some (metric_id (metrics (example_store 1 (Some 1) ''7'') ! 1)) \<noteq>
     selectedMetric (example_store 1 (Some 1) ''7'') \<and>
   (\<exists>st'. addValueEntry example_host (str ''2024-01-01'') (str ''2024-01-01'') (example_store 1 (Some 1) ''7'') = Inr st' \<and>
      map metric_id (metrics st') = [1, 2] \<and>
      metrics st' ! 1 = metrics (example_store 1 (Some 1) ''7'') ! 1)"
proof -
  let ?st = "example_store 1 (Some 1) ''7''"
  have k: "1 < length (metrics ?st)" "Some (metric_id (metrics ?st ! 1)) \<noteq> selectedMetric ?st"
    "map metric_id (metrics ?st) = [1, 2]"
    by (simp_all add: example_store_def)
  from addValueEntry_frame [of example_host "str ''2024-01-01''" "str ''2024-01-01''" ?st] k
  show ?thesis by auto
qed

end
